theory Spec2Isabelle
  imports Complex_Main "HOL-Library.Log_Nat" "HOL-Library.Sublist"
begin

section \<open>Python values\<close>

text \<open>
  The dashboard script \<^verbatim>\<open>frontend/app.py\<close> works on whatever \<^verbatim>\<open>response.json()\<close>
  returns: an arbitrary JSON value as a Python object. A float is a binary64 number, kept
  here by its exact rational value, with the signed zero, the infinities and NaN beside it.
  A dict is an association list read at the first entry of a key (the keys of a Python
  dict are distinct). A string is a list of 8-bit characters: text of code points below 256
  (the three pictographs in the script's own messages are held as their UTF-8 bytes).
\<close>

datatype pyfloat = Fin rat | NegZero | PosInf | NegInf | NaN

datatype pyval =
    PNone
  | PBool bool
  | PInt int
  | PFloat pyfloat
  | PStr string
  | PList "pyval list"
  | PDict "(string \<times> pyval) list"

datatype exn =
    AttributeError
  | TypeError
  | ValueError
  | OverflowError
  | RequestException
  | JSONDecodeError

subsection \<open>Binary64 arithmetic\<close>

definition pow2 :: "int \<Rightarrow> rat" where
  "pow2 e = (if 0 \<le> e then 2 ^ nat e else 1 / 2 ^ nat (- e))"

definition round_half_even :: "rat \<Rightarrow> int" where
  "round_half_even x =
     (let f = \<lfloor>x\<rfloor>; r = x - of_int f
      in if r < 1 / 2 then f else if 1 / 2 < r then f + 1 else if even f then f else f + 1)"

definition ilog2 :: "rat \<Rightarrow> int" where
  \<comment> \<open>the floor of the binary logarithm of a positive rational\<close>
  "ilog2 q = (case quotient_of q of (n, d) \<Rightarrow>
     (let e = bitlen n - bitlen d in if pow2 e \<le> q then e else e - 1))"

definition round_binary64 :: "rat \<Rightarrow> rat option" where
  \<comment> \<open>round a magnitude to the nearest binary64 value, ties to even: 53 significant bits,
      least exponent \<open>-1074\<close> for the last bit; \<open>None\<close> is overflow\<close>
  "round_binary64 q =
     (if q = 0 then Some 0
      else let e = max (ilog2 q) (- 1022) - 52;
               r = of_int (round_half_even (q / pow2 e)) * pow2 e
           in if pow2 1024 \<le> r then None else Some r)"

definition float_of_rat :: "rat \<Rightarrow> pyfloat" where
  \<comment> \<open>the float a decimal literal such as \<^verbatim>\<open>0.08\<close> denotes\<close>
  "float_of_rat q =
     (case round_binary64 \<bar>q\<bar> of
        None \<Rightarrow> if q < 0 then NegInf else PosInf
      | Some r \<Rightarrow> if q < 0 then (if r = 0 then NegZero else Fin (- r)) else Fin r)"

definition float_of_int :: "int \<Rightarrow> exn + pyfloat" where
  \<comment> \<open>\<^verbatim>\<open>float(n)\<close>: raises OverflowError when the rounded value is out of range\<close>
  "float_of_int n =
     (case round_binary64 \<bar>of_int n\<bar> of
        None \<Rightarrow> Inl OverflowError
      | Some r \<Rightarrow> Inr (Fin (if n < 0 then - r else r)))"

fun float_sign :: "pyfloat \<Rightarrow> bool" where
  "float_sign (Fin q) = (q < 0)"
| "float_sign NegZero = True"
| "float_sign PosInf = False"
| "float_sign NegInf = True"
| "float_sign NaN = False"

fun float_val :: "pyfloat \<Rightarrow> rat" where
  "float_val (Fin q) = q"
| "float_val NegZero = 0"
| "float_val PosInf = 0"
| "float_val NegInf = 0"
| "float_val NaN = 0"

fun float_rank :: "pyfloat \<Rightarrow> nat" where
  "float_rank NegInf = 0"
| "float_rank PosInf = 2"
| "float_rank x = 1"

definition is_inf :: "pyfloat \<Rightarrow> bool" where
  "is_inf x = (x = PosInf \<or> x = NegInf)"

definition is_zero :: "pyfloat \<Rightarrow> bool" where
  "is_zero x = (x = Fin 0 \<or> x = NegZero)"

definition float_mul :: "pyfloat \<Rightarrow> pyfloat \<Rightarrow> pyfloat" where
  "float_mul x y =
     (if x = NaN \<or> y = NaN then NaN
      else let s = (float_sign x \<noteq> float_sign y)
           in if is_inf x \<or> is_inf y
              then (if is_zero x \<or> is_zero y then NaN else if s then NegInf else PosInf)
              else (case round_binary64 (\<bar>float_val x\<bar> * \<bar>float_val y\<bar>) of
                      None \<Rightarrow> if s then NegInf else PosInf
                    | Some r \<Rightarrow>
                        if r = 0 then (if s then NegZero else Fin 0)
                        else Fin (if s then - r else r)))"

definition float_lt :: "pyfloat \<Rightarrow> pyfloat \<Rightarrow> bool" where
  "float_lt x y =
     (x \<noteq> NaN \<and> y \<noteq> NaN \<and>
      (float_rank x < float_rank y \<or> (float_rank x = float_rank y \<and> float_val x < float_val y)))"

subsection \<open>Operations of the language the script uses\<close>

fun py_get :: "pyval \<Rightarrow> string \<Rightarrow> pyval \<Rightarrow> exn + pyval" where
  \<comment> \<open>\<^verbatim>\<open>data.get(key, default)\<close>; only a dict has the method\<close>
  "py_get (PDict kvs) k d = Inr (case map_of kvs k of None \<Rightarrow> d | Some v \<Rightarrow> v)"
| "py_get v k d = Inl AttributeError"

fun py_mul_int :: "pyval \<Rightarrow> int \<Rightarrow> exn + pyval" where
  \<comment> \<open>\<^verbatim>\<open>v * n\<close> for an int \<open>n\<close>\<close>
  "py_mul_int PNone n = Inl TypeError"
| "py_mul_int (PBool b) n = Inr (PInt ((if b then 1 else 0) * n))"
| "py_mul_int (PInt i) n = Inr (PInt (i * n))"
| "py_mul_int (PFloat x) n =
     (case float_of_int n of Inl e \<Rightarrow> Inl e | Inr y \<Rightarrow> Inr (PFloat (float_mul x y)))"
| "py_mul_int (PStr s) n = Inr (PStr (concat (replicate (nat n) s)))"
| "py_mul_int (PList xs) n = Inr (PList (concat (replicate (nat n) xs)))"
| "py_mul_int (PDict kvs) n = Inl TypeError"

fun truthy :: "pyval \<Rightarrow> bool" where
  "truthy PNone = False"
| "truthy (PBool b) = b"
| "truthy (PInt i) = (i \<noteq> 0)"
| "truthy (PFloat x) = (\<not> is_zero x)"
| "truthy (PStr s) = (s \<noteq> [])"
| "truthy (PList xs) = (xs \<noteq> [])"
| "truthy (PDict kvs) = (kvs \<noteq> [])"

fun py_iter :: "pyval \<Rightarrow> exn + pyval list" where
  \<comment> \<open>the items a \<^verbatim>\<open>for\<close> loop visits\<close>
  "py_iter (PList xs) = Inr xs"
| "py_iter (PStr s) = Inr (map (\<lambda>c. PStr [c]) s)"
| "py_iter (PDict kvs) = Inr (map (\<lambda>kv. PStr (fst kv)) kvs)"
| "py_iter v = Inl TypeError"

definition upper_char :: "char \<Rightarrow> char" where
  "upper_char c =
     (let n = (of_char c :: nat) in if 97 \<le> n \<and> n \<le> 122 then char_of (n - 32) else c)"

definition py_upper :: "string \<Rightarrow> string" where
  \<comment> \<open>\<^verbatim>\<open>s.upper()\<close> as far as the letters \<open>A\<close> to \<open>Z\<close> go: among code points below 256 they
      come from \<open>a\<close> to \<open>z\<close> alone\<close>
  "py_upper s = map upper_char s"

fun py_in :: "string \<Rightarrow> string \<Rightarrow> bool" where
  \<comment> \<open>\<^verbatim>\<open>sub in s\<close> on strings\<close>
  "py_in sub [] = (sub = [])"
| "py_in sub (c # cs) = (prefix sub (c # cs) \<or> py_in sub cs)"

text \<open>
  An f-string is kept as its parts: literal text, \<^verbatim>\<open>{v}\<close> and \<^verbatim>\<open>{v:.Nf}\<close>. The fixed-point
  format converts an int or a bool to a float and rejects every other type.
\<close>

datatype part = Lit string | Str pyval | Fixed nat pyfloat

fun format_fixed :: "nat \<Rightarrow> pyval \<Rightarrow> exn + part" where
  "format_fixed d (PFloat x) = Inr (Fixed d x)"
| "format_fixed d (PInt i) =
     (case float_of_int i of Inl e \<Rightarrow> Inl e | Inr x \<Rightarrow> Inr (Fixed d x))"
| "format_fixed d (PBool b) = Inr (Fixed d (Fin (if b then 1 else 0)))"
| "format_fixed d (PStr s) = Inl ValueError"
| "format_fixed d v = Inl TypeError"

section \<open>Session state, environment and what a run produces\<close>

record hrec =
  Time :: string
  Throughput :: pyval
  ErrorRate :: pyval

record session =
  history :: "hrec list option"

datatype http_result =
    RequestFailed
  | Response nat "pyval option"

record draw =
  stamp :: string
  pick :: nat
  lat :: nat
  tok :: nat
  unif :: nat

record env =
  stream_active :: bool
  k_threshold :: pyfloat
  burst_clicked :: bool
  draws :: "nat \<Rightarrow> draw"
  post_raises :: "nat \<Rightarrow> bool"
  metrics_reply :: http_result
  clock_hms :: string
  clock_full :: string

record logrec =
  timestamp :: string
  user_id :: string
  latency_ms :: int
  tokens_used :: int
  is_error :: bool

datatype call = Post string logrec nat | Get string nat

datatype element =
    PageStyle
  | Image string
  | Title string
  | Toggle string bool
  | Slider string pyfloat
  | Divider
  | Button string
  | Metric string "part list"
  | Markdown string
  | Subheader string
  | Write string
  | AreaChart "(string \<times> pyval) list"
  | LineChart "(string \<times> pyval) list"
  | BarChart "(string \<times> pyval) list"
  | UserChart pyval
  | InfoBox string
  | ErrorBox string
  | WarningBox string
  | SuccessBox string
  | Caption string

datatype ending = Completed | Stopped | Crashed exn

record outcome =
  state :: session
  calls :: "call list"
  sidebar :: "element list"
  main :: "element list"
  ending :: ending

type_synonym render = "element list \<times> exn option"

definition emit :: "element list \<Rightarrow> render" where
  "emit els = (els, None)"

definition seq :: "render \<Rightarrow> render \<Rightarrow> render" where
  \<comment> \<open>run one block after another; an exception ends the run and keeps what was drawn\<close>
  "seq a b = (case snd a of Some ex \<Rightarrow> a | None \<Rightarrow> (fst a @ fst b, snd b))"

definition seqs :: "render list \<Rightarrow> render" where
  "seqs rs = foldr seq rs (emit [])"

definition metric :: "string \<Rightarrow> exn + part list \<Rightarrow> render" where
  "metric label txt = (case txt of Inl ex \<Rightarrow> ([], Some ex) | Inr ps \<Rightarrow> emit [Metric label ps])"

section \<open>The script\<close>

definition API_URL :: string where
  "API_URL = ''http://localhost:8000''"

definition REQUEST_TIMEOUT :: nat where
  "REQUEST_TIMEOUT = 3"

definition init_history :: "session \<Rightarrow> session" where
  "init_history s = (case history s of None \<Rightarrow> s\<lparr>history := Some []\<rparr> | Some h \<Rightarrow> s)"

subsection \<open>Sidebar and burst generator\<close>

text \<open>
  What the widgets, the clock, the random generator and the network give a run is its
  \<open>env\<close>. Each function of \<^verbatim>\<open>random\<close> reduces a raw draw of the generator to its range, as
  the library does: \<^verbatim>\<open>choice\<close> and \<^verbatim>\<open>randint\<close> through an index below the size of the range,
  \<^verbatim>\<open>random\<close> as a multiple of \<open>1 / 2 ^ 53\<close> below 1.
\<close>

definition random_choice :: "'a list \<Rightarrow> nat \<Rightarrow> 'a" where
  "random_choice xs r = xs ! (r mod length xs)"

definition random_randint :: "int \<Rightarrow> int \<Rightarrow> nat \<Rightarrow> int" where
  "random_randint a b r = a + int (r mod nat (b - a + 1))"

definition random_random :: "nat \<Rightarrow> pyfloat" where
  "random_random r = Fin (of_nat (r mod 2 ^ 53) / 2 ^ 53)"

definition make_log :: "draw \<Rightarrow> logrec" where
  "make_log d =
     \<lparr>timestamp = stamp d,
      user_id = random_choice [''alice_001'', ''bob_002'', ''charlie_003''] (pick d),
      latency_ms = random_randint 100 1500 (lat d),
      tokens_used = random_randint 50 2000 (tok d),
      is_error = float_lt (random_random (unif d)) (float_of_rat (8 / 100))\<rparr>"

definition requests_post :: "env \<Rightarrow> nat \<Rightarrow> exn + unit" where
  \<comment> \<open>what the \<open>i\<close>-th POST of the run does: the network decides\<close>
  "requests_post e i = (if post_raises e i then Inl RequestException else Inr ())"

fun burst_loop :: "env \<Rightarrow> nat list \<Rightarrow> call list \<times> element list" where
  "burst_loop e [] = ([], [])"
| "burst_loop e (i # is) =
     (let log = make_log (draws e i);
          shown = (case requests_post e i of Inl ex \<Rightarrow> [] | Inr u \<Rightarrow> []);
          rest = burst_loop e is
      in (Post (API_URL @ ''/ingest'') log 1 # fst rest, shown @ snd rest))"

definition sidebar_block :: "env \<Rightarrow> call list \<times> element list" where
  "sidebar_block e =
     (let widgets =
            [Image ''https://cdn-icons-png.flaticon.com/512/2103/2103633.png'',
             Title ''Settings'',
             Toggle ''Live Stream Simulation'' (stream_active e),
             Slider ''Anomaly Sensitivity (k)'' (k_threshold e),
             Divider,
             Button '' Generate Burst Logs'']
      in if burst_clicked e
         then (let b = burst_loop e [0..<30]
               in (fst b, widgets @ snd b @ [SuccessBox ''Burst sent to API!'']))
         else ([], widgets))"

subsection \<open>Data fetching\<close>

definition tail_df :: "nat \<Rightarrow> 'a list \<Rightarrow> 'a list" where
  \<comment> \<open>\<^verbatim>\<open>DataFrame.tail(n)\<close>: the last \<open>n\<close> rows\<close>
  "tail_df n rows = drop (length rows - n) rows"

definition new_entry :: "string \<Rightarrow> pyval \<Rightarrow> exn + hrec" where
  "new_entry now data =
     (case py_get data ''requests_per_min'' (PInt 0) of
        Inl ex \<Rightarrow> Inl ex
      | Inr tp \<Rightarrow>
          (case py_get data ''error_rate'' (PFloat (Fin 0)) of
             Inl ex \<Rightarrow> Inl ex
           | Inr er \<Rightarrow>
               (case py_mul_int er 100 of
                  Inl ex \<Rightarrow> Inl ex
                | Inr pc \<Rightarrow> Inr \<lparr>Time = now, Throughput = tp, ErrorRate = pc\<rparr>)))"

definition fetch_update :: "session \<Rightarrow> env \<Rightarrow> exn + session \<times> pyval" where
  \<comment> \<open>the body of the \<^verbatim>\<open>try\<close>\<close>
  "fetch_update s e =
     (case metrics_reply e of
        RequestFailed \<Rightarrow> Inl RequestException
      | Response code body \<Rightarrow>
          (case body of
             None \<Rightarrow> Inl JSONDecodeError
           | Some data \<Rightarrow>
               (case new_entry (clock_hms e) data of
                  Inl ex \<Rightarrow> Inl ex
                | Inr r \<Rightarrow>
                    (case history s of
                       None \<Rightarrow> Inl AttributeError
                     | Some h \<Rightarrow> Inr (s\<lparr>history := Some (tail_df 20 (h @ [r]))\<rparr>, data)))))"

definition unreachable_notice :: string where
  "unreachable_notice = '' Backend unreachable. Ensure FastAPI server is running.''"

subsection \<open>Main view\<close>

definition red_circle :: string where
  "red_circle = [CHR 0xF0, CHR 0x9F, CHR 0x94, CHR 0xB4]"

definition yellow_circle :: string where
  "yellow_circle = [CHR 0xF0, CHR 0x9F, CHR 0x9F, CHR 0xA1]"

definition check_mark :: string where
  "check_mark = [CHR 0xE2, CHR 0x9C, CHR 0x85]"

definition nominal_notice :: string where
  "nominal_notice = check_mark @ '' All systems nominal. No anomalies detected.''"

definition kpi_cards :: "pyval \<Rightarrow> render" where
  "kpi_cards data = seqs
     [metric ''Throughput''
        (case py_get data ''requests_per_min'' (PInt 0) of
           Inl ex \<Rightarrow> Inl ex
         | Inr v \<Rightarrow> Inr [Str v, Lit '' RPM'']),
      metric ''Error Rate''
        (case py_get data ''error_rate'' (PFloat (Fin 0)) of
           Inl ex \<Rightarrow> Inl ex
         | Inr err \<Rightarrow>
             (case py_mul_int err 100 of
                Inl ex \<Rightarrow> Inl ex
              | Inr pc \<Rightarrow>
                  (case format_fixed 1 pc of
                     Inl ex \<Rightarrow> Inl ex
                   | Inr p \<Rightarrow> Inr [p, Lit ''%'']))),
      metric ''P95 Latency''
        (case py_get data ''p95_latency'' (PInt 0) of
           Inl ex \<Rightarrow> Inl ex
         | Inr v \<Rightarrow>
             (case format_fixed 0 v of
                Inl ex \<Rightarrow> Inl ex
              | Inr p \<Rightarrow> Inr [p, Lit '' ms''])),
      metric ''Est. Cost''
        (case py_get data ''estimated_cost_usd'' (PFloat (Fin 0)) of
           Inl ex \<Rightarrow> Inl ex
         | Inr v \<Rightarrow>
             (case format_fixed 4 v of
                Inl ex \<Rightarrow> Inl ex
              | Inr p \<Rightarrow> Inr [Lit ''$'', p]))]"

definition trends :: "hrec list \<Rightarrow> render" where
  "trends h = emit
     [Subheader '' Performance Trends'',
      Write ''*Throughput (Requests/Min)*'',
      AreaChart (map (\<lambda>r. (Time r, Throughput r)) h),
      Write ''*Error Rate (%)*'',
      LineChart (map (\<lambda>r. (Time r, ErrorRate r)) h)]"

definition latency_percentiles :: "pyval \<Rightarrow> render" where
  "latency_percentiles data =
     (case py_get data ''p50_latency'' (PInt 0) of
        Inl ex \<Rightarrow> ([Subheader '' Latency Percentiles''], Some ex)
      | Inr v50 \<Rightarrow>
          (case py_get data ''p95_latency'' (PInt 0) of
             Inl ex \<Rightarrow> ([Subheader '' Latency Percentiles''], Some ex)
           | Inr v95 \<Rightarrow>
               (case py_get data ''p99_latency'' (PInt 0) of
                  Inl ex \<Rightarrow> ([Subheader '' Latency Percentiles''], Some ex)
                | Inr v99 \<Rightarrow>
                    emit [Subheader '' Latency Percentiles'',
                          BarChart [(''P50'', v50), (''P95'', v95), (''P99'', v99)]])))"

fun from_dict :: "pyval \<Rightarrow> exn + pyval" where
  \<comment> \<open>\<^verbatim>\<open>DataFrame.from_dict(v, orient="index")\<close> takes \<^verbatim>\<open>len(v)\<close> and \<^verbatim>\<open>v.values()\<close>; a dict
      goes on to the chart as it is\<close>
  "from_dict (PDict kvs) = Inr (PDict kvs)"
| "from_dict (PList xs) = Inl AttributeError"
| "from_dict (PStr s) = Inl AttributeError"
| "from_dict v = Inl TypeError"

definition user_distribution :: "pyval \<Rightarrow> render" where
  "user_distribution data =
     (case py_get data ''per_user_requests'' (PDict []) of
        Inl ex \<Rightarrow> ([Subheader '' User Distribution''], Some ex)
      | Inr user_counts \<Rightarrow>
          if truthy user_counts
          then (case from_dict user_counts of
                  Inl ex \<Rightarrow> ([Subheader '' User Distribution''], Some ex)
                | Inr user_df \<Rightarrow> emit [Subheader '' User Distribution'', UserChart user_df])
          else emit [Subheader '' User Distribution'',
                     InfoBox ''No active user data in window.''])"

definition is_critical :: "string \<Rightarrow> bool" where
  \<comment> \<open>\<^verbatim>\<open>"CRITICAL" in alert.upper()\<close>\<close>
  "is_critical alert = py_in ''CRITICAL'' (py_upper alert)"

fun render_alert :: "pyval \<Rightarrow> render" where
  "render_alert (PStr alert) =
     (if is_critical alert
      then emit [ErrorBox (red_circle @ '' '' @ alert)]
      else emit [WarningBox (yellow_circle @ '' '' @ alert)])"
| "render_alert v = ([], Some AttributeError)"

fun alerts_loop :: "pyval list \<Rightarrow> render" where
  "alerts_loop [] = emit []"
| "alerts_loop (alert # rest) = seq (render_alert alert) (alerts_loop rest)"

definition incident_log :: "pyval \<Rightarrow> render" where
  "incident_log data =
     (case py_get data ''anomalies'' (PList []) of
        Inl ex \<Rightarrow> ([Subheader '' Incident Log''], Some ex)
      | Inr anomalies \<Rightarrow>
          seq (emit [Subheader '' Incident Log''])
            (if truthy anomalies
             then (case py_iter anomalies of
                     Inl ex \<Rightarrow> ([], Some ex)
                   | Inr alerts \<Rightarrow> alerts_loop alerts)
             else emit [SuccessBox nominal_notice]))"

definition main_ui :: "hrec list \<Rightarrow> pyval \<Rightarrow> env \<Rightarrow> render" where
  "main_ui h data e = seqs
     [emit [Title ''AI API Real-Time Monitor''],
      kpi_cards data,
      emit [Markdown ''---''],
      trends h,
      emit [Markdown ''---''],
      latency_percentiles data,
      user_distribution data,
      emit [Markdown ''---''],
      incident_log data,
      emit [Caption (''Last updated: '' @ clock_full e)]]"

definition script_run :: "session \<Rightarrow> env \<Rightarrow> outcome" where
  "script_run s0 e =
     (let s = init_history s0;
          side = sidebar_block e;
          get = Get (API_URL @ ''/metrics'') REQUEST_TIMEOUT
      in case fetch_update s e of
           Inl ex \<Rightarrow>
             \<lparr>state = s, calls = fst side @ [get], sidebar = snd side,
              main = [PageStyle, ErrorBox unreachable_notice], ending = Stopped\<rparr>
         | Inr (s', data) \<Rightarrow>
             (let r = main_ui (case history s' of None \<Rightarrow> [] | Some h \<Rightarrow> h) data e
              in \<lparr>state = s', calls = fst side @ [get], sidebar = snd side,
                  main = PageStyle # fst r,
                  ending = (case snd r of None \<Rightarrow> Completed | Some ex \<Rightarrow> Crashed ex)\<rparr>))"

fun run_cycles :: "session \<Rightarrow> env list \<Rightarrow> session" where
  \<comment> \<open>the reruns of one session, each started by the refresh timer or a widget\<close>
  "run_cycles s [] = s"
| "run_cycles s (e # es) = run_cycles (state (script_run s e)) es"

section \<open>Concrete inputs\<close>

definition quiet_env :: env where
  "quiet_env =
     \<lparr>stream_active = True, k_threshold = Fin (3 / 2), burst_clicked = False,
      draws = (\<lambda>i. \<lparr>stamp = ''2024-05-01T12:00:00+00:00'', pick = i, lat = 7 * i,
                       tok = 11 * i, unif = i\<rparr>),
      post_raises = (\<lambda>i. even i),
      metrics_reply = RequestFailed,
      clock_hms = ''12:00:00'', clock_full = ''2024-05-01 12:00:00''\<rparr>"

definition one_row :: "hrec list" where
  "one_row = [\<lparr>Time = ''11:59:55'', Throughput = PInt 10, ErrorRate = PFloat (Fin 1)\<rparr>]"

section \<open>Reading a cycle\<close>

text \<open>
  Two readings used to state the properties: the rows a session holds (none before the
  first run), and the row a run derives when the body of its \<^verbatim>\<open>try\<close> completes.
\<close>

definition derived_record :: "env \<Rightarrow> hrec option" where
  "derived_record e =
     (case metrics_reply e of
        RequestFailed \<Rightarrow> None
      | Response code body \<Rightarrow>
          (case body of
             None \<Rightarrow> None
           | Some data \<Rightarrow>
               (case new_entry (clock_hms e) data of Inl ex \<Rightarrow> None | Inr r \<Rightarrow> Some r)))"

definition buffer :: "session \<Rightarrow> hrec list" where
  "buffer s = (case history s of None \<Rightarrow> [] | Some h \<Rightarrow> h)"

definition cycle_env :: "nat \<Rightarrow> env" where
  "cycle_env i = quiet_env
     \<lparr>metrics_reply := Response 200
        (Some (PDict [(''requests_per_min'', PInt (int i)), (''error_rate'', PInt 0)]))\<rparr>"

definition cycle_rec :: "nat \<Rightarrow> hrec" where
  "cycle_rec i = \<lparr>Time = ''12:00:00'', Throughput = PInt (int i), ErrorRate = PInt 0\<rparr>"

definition scenario_env :: "int \<Rightarrow> rat \<Rightarrow> env" where
  "scenario_env rpm rate = quiet_env
     \<lparr>metrics_reply := Response 200
        (Some (PDict [(''requests_per_min'', PInt rpm),
                      (''error_rate'', PFloat (float_of_rat rate))]))\<rparr>"

definition scenario :: "env list" where
  "scenario = [scenario_env 10 (1 / 100), scenario_env 20 (5 / 100), scenario_env 15 (2 / 100)]"

section \<open>Severity and status boxes\<close>

text \<open>
  The reading of ``contains the substring under case-insensitive comparison'' used to
  state the classification: some window of the text, as long as the substring, equals it
  once both are put in lower case. \<open>alert_box\<close> is the box an anomaly text is to get under
  that reading: \<^verbatim>\<open>st.error\<close> (Critical) or \<^verbatim>\<open>st.warning\<close> (Warning).
\<close>

definition lower_char :: "char \<Rightarrow> char" where
  "lower_char c =
     (let n = (of_char c :: nat) in if 65 \<le> n \<and> n \<le> 90 then char_of (n + 32) else c)"

definition ci_equal :: "string \<Rightarrow> string \<Rightarrow> bool" where
  "ci_equal u v = (map lower_char u = map lower_char v)"

definition contains_ci :: "string \<Rightarrow> string \<Rightarrow> bool" where
  "contains_ci sub s = (\<exists>i\<in>{0..length s}. ci_equal (take (length sub) (drop i s)) sub)"

definition alert_box :: "string \<Rightarrow> element" where
  "alert_box s =
     (if contains_ci ''CRITICAL'' s
      then ErrorBox (red_circle @ '' '' @ s)
      else WarningBox (yellow_circle @ '' '' @ s))"

definition alerts_env :: env where
  "alerts_env = quiet_env
     \<lparr>metrics_reply := Response 200
        (Some (PDict [(''anomalies'',
           PList [PStr ''CRITICAL: error rate 40%'', PStr ''latency above baseline'',
                  PStr ''critical error''])]))\<rparr>"

fun is_status_box :: "element \<Rightarrow> bool" where
  "is_status_box (ErrorBox t) = True"
| "is_status_box (WarningBox t) = True"
| "is_status_box (SuccessBox t) = True"
| "is_status_box el = False"

definition status_boxes :: "element list \<Rightarrow> element list" where
  "status_boxes els = filter is_status_box els"



definition anomalies_of :: "(string \<times> pyval) list \<Rightarrow> pyval" where
  "anomalies_of kvs = (case map_of kvs ''anomalies'' of None \<Rightarrow> PList [] | Some v \<Rightarrow> v)"


definition snapshot_env :: "rat \<Rightarrow> env" where
  "snapshot_env p95 = quiet_env
     \<lparr>metrics_reply := Response 200
        (Some (PDict [(''requests_per_min'', PInt 10), (''p95_latency'', PFloat (Fin p95))]))\<rparr>"

definition sidebar_widgets :: "env \<Rightarrow> element list" where
  "sidebar_widgets e =
     [Image ''https://cdn-icons-png.flaticon.com/512/2103/2103633.png'',
      Title ''Settings'',
      Toggle ''Live Stream Simulation'' (stream_active e),
      Slider ''Anomaly Sensitivity (k)'' (k_threshold e),
      Divider,
      Button '' Generate Burst Logs'']"

definition burst_env :: env where
  "burst_env = quiet_env\<lparr>burst_clicked := True\<rparr>"

section \<open>Defaults and the unreachable branch\<close>

text \<open>
  The defaults the script passes to \<^verbatim>\<open>data.get\<close>, field by field, and the replies on which
  the body of the \<^verbatim>\<open>try\<close> raises: the request raises, the body is not JSON, the JSON value
  is not an object, or its \<^verbatim>\<open>error_rate\<close> is null or an object (\<^verbatim>\<open>* 100\<close> raises TypeError).
\<close>

definition field_defaults :: "(string \<times> pyval) list" where
  "field_defaults =
     [(''requests_per_min'', PInt 0),
      (''error_rate'', PFloat (Fin 0)),
      (''p50_latency'', PInt 0),
      (''p95_latency'', PInt 0),
      (''p99_latency'', PInt 0),
      (''estimated_cost_usd'', PFloat (Fin 0)),
      (''per_user_requests'', PDict []),
      (''anomalies'', PList [])]"

fun unreachable_branch :: "http_result \<Rightarrow> bool" where
  "unreachable_branch RequestFailed = True"
| "unreachable_branch (Response code None) = True"
| "unreachable_branch (Response code (Some (PDict kvs))) =
     (case map_of kvs ''error_rate'' of
        Some PNone \<Rightarrow> True
      | Some (PDict d) \<Rightarrow> True
      | _ \<Rightarrow> False)"
| "unreachable_branch (Response code (Some v)) = True"

definition null_rate_env :: env where
  "null_rate_env = quiet_env
     \<lparr>metrics_reply := Response 200
        (Some (PDict [(''requests_per_min'', PInt 10), (''error_rate'', PNone)]))\<rparr>"


section \<open>Basic facts about a run\<close>

lemma script_run_failed:
  "fetch_update (init_history s0) e = Inl ex \<Longrightarrow>
   script_run s0 e =
     \<lparr>state = init_history s0,
      calls = fst (sidebar_block e) @ [Get (API_URL @ ''/metrics'') REQUEST_TIMEOUT],
      sidebar = snd (sidebar_block e),
      main = [PageStyle, ErrorBox unreachable_notice], ending = Stopped\<rparr>"
  by (simp add: script_run_def Let_def)

lemma init_history_Some: "history s \<noteq> None \<Longrightarrow> init_history s = s"
  by (auto simp: init_history_def)

lemma fetch_update_derived:
  "history s = Some h \<Longrightarrow>
   fetch_update s e =
     (case derived_record e of
        None \<Rightarrow> (case fetch_update s e of Inl ex \<Rightarrow> Inl ex | Inr p \<Rightarrow> Inl AttributeError)
      | Some r \<Rightarrow> Inr (s\<lparr>history := Some (tail_df 20 (h @ [r]))\<rparr>,
                       case metrics_reply e of Response code (Some data) \<Rightarrow> data))"
  by (auto simp: fetch_update_def derived_record_def
      split: http_result.splits option.splits sum.splits)

lemma history_init: "history (init_history s) = Some (buffer s)"
  by (simp add: init_history_def buffer_def split: option.splits)

lemma script_run_success_history:
  "derived_record e = Some r \<Longrightarrow>
   history (state (script_run s e)) = Some (tail_df 20 (buffer s @ [r]))"
  using fetch_update_derived [OF history_init, of s e]
  by (simp add: script_run_def Let_def split: sum.splits prod.splits)

lemma script_run_failure_history:
  "derived_record e = None \<Longrightarrow> history (state (script_run s e)) = Some (buffer s)"
  using fetch_update_derived [OF history_init, of s e]
  by (auto simp add: script_run_def Let_def history_init split: sum.splits prod.splits)

lemma tail_df_tail_df: "tail_df n (tail_df n xs @ ys) = tail_df n (xs @ ys)"
  by (cases "n \<le> length xs") (simp_all add: tail_df_def add.commute)

lemma length_tail_df: "length (tail_df n xs) = min n (length xs)"
  by (simp add: tail_df_def)

lemma tail_df_short: "length xs \<le> n \<Longrightarrow> tail_df n xs = xs"
  by (simp add: tail_df_def)

lemma buffer_script_run_success:
  "derived_record e = Some r \<Longrightarrow> buffer (state (script_run s e)) = tail_df 20 (buffer s @ [r])"
  by (simp add: buffer_def script_run_success_history)

lemma buffer_script_run_failure:
  "derived_record e = None \<Longrightarrow> buffer (state (script_run s e)) = buffer s"
  by (simp add: buffer_def script_run_failure_history)

lemma run_cycles_success:
  "map derived_record es = map Some rs \<Longrightarrow> length (buffer s) \<le> 20 \<Longrightarrow>
   buffer (run_cycles s es) = tail_df 20 (buffer s @ rs)"
proof (induction es arbitrary: s rs)
  case Nil
  then show ?case by (simp add: tail_df_short)
next
  case (Cons e es)
  then obtain r rs' where rs: "rs = r # rs'" and r: "derived_record e = Some r"
    and rest: "map derived_record es = map Some rs'"
    by (cases rs) auto
  have len: "length (buffer (state (script_run s e))) \<le> 20"
    by (simp add: buffer_script_run_success [OF r] length_tail_df)
  show ?case
    using Cons.IH [OF rest len]
    by (simp add: rs buffer_script_run_success [OF r] tail_df_tail_df)
qed

lemma fifo_full: "length h = 20 \<Longrightarrow> tail_df 20 (h @ [r]) = tl h @ [r]"
  by (cases h) (simp_all add: tail_df_def)

section \<open>Bounded history\<close>

text \<open>
  C1. Starting from an empty history, after \<open>N\<close> runs whose fetch succeeded the buffer
  holds the last \<open>min N 20\<close> derived records, in fetch order, and nothing else. A run that
  appends to a buffer of 20 rows drops exactly the oldest row and keeps the other 19 and
  the new one in order. Whatever a run does, the buffer after it is a suffix of the buffer
  before it followed by the run's record (if it derived one): rows are never reordered.
\<close>

theorem bounded_fifo_history:
  assumes "map derived_record es = map Some rs" and "buffer s = []"
  shows "buffer (run_cycles s es) = drop (length rs - 20) rs
       \<and> length (buffer (run_cycles s es)) = min (length es) 20
       \<and> (\<forall>s' e r. length (buffer s') = 20 \<and> derived_record e = Some r \<longrightarrow>
             buffer (state (script_run s' e)) = tl (buffer s') @ [r])
       \<and> (\<forall>s' e. suffix (buffer (state (script_run s' e)))
              (buffer s' @ (case derived_record e of None \<Rightarrow> [] | Some r \<Rightarrow> [r])))"
proof -
  have len: "length es = length rs"
    using assms(1) by (metis length_map)
  have a: "buffer (run_cycles s es) = drop (length rs - 20) rs"
    using run_cycles_success [OF assms(1), of s] assms(2) by (simp add: tail_df_def)
  have b: "length (buffer (run_cycles s es)) = min (length es) 20"
    unfolding a len by simp
  have c: "buffer (state (script_run s' e)) = tl (buffer s') @ [r]"
    if "length (buffer s') = 20" "derived_record e = Some r" for s' e r
    using that by (simp add: buffer_script_run_success fifo_full)
  have d: "suffix (buffer (state (script_run s' e)))
              (buffer s' @ (case derived_record e of None \<Rightarrow> [] | Some r \<Rightarrow> [r]))" for s' e
    by (cases "derived_record e")
       (simp_all add: buffer_script_run_success buffer_script_run_failure tail_df_def suffix_drop)
  from a b c d show ?thesis by blast
qed

lemma derived_cycle_env: "derived_record (cycle_env i) = Some (cycle_rec i)"
  by (simp add: derived_record_def cycle_env_def cycle_rec_def quiet_env_def new_entry_def)

theorem bounded_fifo_history_witness:
  "map derived_record (map cycle_env [0..<21]) = map Some (map cycle_rec [0..<21])
   \<and> buffer \<lparr>history = None\<rparr> = []
   \<and> buffer (run_cycles \<lparr>history = None\<rparr> (map cycle_env [0..<21])) = map cycle_rec [1..<21]
   \<and> length (buffer (run_cycles \<lparr>history = None\<rparr> (map cycle_env [0..<21]))) = 20"
proof -
  have h: "map derived_record (map cycle_env [0..<21]) = map Some (map cycle_rec [0..<21])"
    by (simp add: derived_cycle_env)
  have b: "buffer \<lparr>history = None\<rparr> = []"
    by (simp add: buffer_def)
  have d: "drop (Suc 0) (map cycle_rec [0..<21]) = map cycle_rec [1..<21]"
    by (simp add: drop_map)
  show ?thesis
    using bounded_fifo_history [OF h b] h b d by simp
qed

section \<open>The derived record\<close>

lemma float_of_int_100: "float_of_int 100 = Inr (Fin 100)"
  by code_simp

lemma percent_1: "float_mul (float_of_rat (1 / 100)) (Fin 100) = Fin 1"
  by code_simp

lemma percent_5: "float_mul (float_of_rat (1 / 20)) (Fin 100) = Fin 5"
  by code_simp

lemma percent_2: "float_mul (float_of_rat (1 / 50)) (Fin 100) = Fin 2"
  by code_simp

lemma derived_scenario_env:
  "derived_record (scenario_env rpm rate) =
     Some \<lparr>Time = ''12:00:00'', Throughput = PInt rpm,
           ErrorRate = PFloat (float_mul (float_of_rat rate) (Fin 100))\<rparr>"
  by (simp add: derived_record_def scenario_env_def quiet_env_def new_entry_def float_of_int_100)

lemma scenario_buffer:
  "buffer (run_cycles \<lparr>history = None\<rparr> scenario) =
     [\<lparr>Time = ''12:00:00'', Throughput = PInt 10, ErrorRate = PFloat (Fin 1)\<rparr>,
      \<lparr>Time = ''12:00:00'', Throughput = PInt 20, ErrorRate = PFloat (Fin 5)\<rparr>,
      \<lparr>Time = ''12:00:00'', Throughput = PInt 15, ErrorRate = PFloat (Fin 2)\<rparr>]"
proof -
  have "map derived_record scenario = map Some
     [\<lparr>Time = ''12:00:00'', Throughput = PInt 10, ErrorRate = PFloat (Fin 1)\<rparr>,
      \<lparr>Time = ''12:00:00'', Throughput = PInt 20, ErrorRate = PFloat (Fin 5)\<rparr>,
      \<lparr>Time = ''12:00:00'', Throughput = PInt 15, ErrorRate = PFloat (Fin 2)\<rparr>]"
    by (simp add: scenario_def derived_scenario_env percent_1 percent_5 percent_2)
  from run_cycles_success [OF this, of "\<lparr>history = None\<rparr>"]
  show ?thesis by (simp add: buffer_def tail_df_def)
qed

lemma new_entry_dict:
  "new_entry now data = Inr r \<Longrightarrow>
   \<exists>kvs. data = PDict kvs \<and> Time r = now
     \<and> Throughput r = (case map_of kvs ''requests_per_min'' of None \<Rightarrow> PInt 0 | Some v \<Rightarrow> v)
     \<and> py_mul_int (case map_of kvs ''error_rate'' of None \<Rightarrow> PFloat (Fin 0) | Some v \<Rightarrow> v) 100
          = Inr (ErrorRate r)"
  by (cases data) (auto simp: new_entry_def split: sum.splits)

text \<open>
  C5. When the body of the \<^verbatim>\<open>try\<close> completes, the payload is a dict and the row appended
  to the history is \<open>new_entry\<close> of the clock and the payload: its throughput is the
  payload's \<^verbatim>\<open>requests_per_min\<close> (0 when absent) and its error rate is the payload's
  \<^verbatim>\<open>error_rate\<close> (0.0 when absent) times 100, by Python's \<^verbatim>\<open>*\<close>. Three successful
  fetches with throughputs 10, 20, 15 and error rates 0.01, 0.05, 0.02 (as binary64
  numbers) leave three rows with throughputs 10, 20, 15 and error rates 1.0, 5.0, 2.0.
\<close>

theorem history_record_derivation:
  "(fetch_update s e = Inr (s', data) \<longrightarrow>
      (\<exists>code kvs r. metrics_reply e = Response code (Some data) \<and> data = PDict kvs
         \<and> new_entry (clock_hms e) data = Inr r
         \<and> history s' = Some (tail_df 20 (buffer s @ [r]))
         \<and> Time r = clock_hms e
         \<and> Throughput r = (case map_of kvs ''requests_per_min'' of None \<Rightarrow> PInt 0 | Some v \<Rightarrow> v)
         \<and> py_mul_int (case map_of kvs ''error_rate'' of None \<Rightarrow> PFloat (Fin 0) | Some v \<Rightarrow> v) 100
              = Inr (ErrorRate r)))
   \<and> map Throughput (buffer (run_cycles \<lparr>history = None\<rparr> scenario)) = [PInt 10, PInt 20, PInt 15]
   \<and> map ErrorRate (buffer (run_cycles \<lparr>history = None\<rparr> scenario))
       = [PFloat (Fin 1), PFloat (Fin 5), PFloat (Fin 2)]"
proof -
  have "\<exists>code kvs r. metrics_reply e = Response code (Some data) \<and> data = PDict kvs
         \<and> new_entry (clock_hms e) data = Inr r
         \<and> history s' = Some (tail_df 20 (buffer s @ [r]))
         \<and> Time r = clock_hms e
         \<and> Throughput r = (case map_of kvs ''requests_per_min'' of None \<Rightarrow> PInt 0 | Some v \<Rightarrow> v)
         \<and> py_mul_int (case map_of kvs ''error_rate'' of None \<Rightarrow> PFloat (Fin 0) | Some v \<Rightarrow> v) 100
              = Inr (ErrorRate r)"
    if ok: "fetch_update s e = Inr (s', data)"
  proof -
    from ok obtain code r h where rep: "metrics_reply e = Response code (Some data)"
      and r: "new_entry (clock_hms e) data = Inr r" and h: "history s = Some h"
      and s': "s' = s\<lparr>history := Some (tail_df 20 (h @ [r]))\<rparr>"
      by (auto simp: fetch_update_def split: http_result.splits option.splits sum.splits)
    from new_entry_dict [OF r] rep r h s' show ?thesis
      by (auto simp: buffer_def)
  qed
  then show ?thesis
    by (simp add: scenario_buffer)
qed

theorem history_record_derivation_witness:
  "fetch_update \<lparr>history = Some []\<rparr> (scenario_env 10 (1 / 100)) =
     Inr (\<lparr>history = Some [\<lparr>Time = ''12:00:00'', Throughput = PInt 10,
                               ErrorRate = PFloat (Fin 1)\<rparr>]\<rparr>,
          PDict [(''requests_per_min'', PInt 10), (''error_rate'', PFloat (float_of_rat (1 / 100)))])
   \<and> (\<exists>r. new_entry (clock_hms (scenario_env 10 (1 / 100)))
             (PDict [(''requests_per_min'', PInt 10),
                     (''error_rate'', PFloat (float_of_rat (1 / 100)))]) = Inr r
          \<and> Throughput r = PInt 10
          \<and> py_mul_int (PFloat (float_of_rat (1 / 100))) 100 = Inr (ErrorRate r))"
proof -
  have h: "fetch_update \<lparr>history = Some []\<rparr> (scenario_env 10 (1 / 100)) =
     Inr (\<lparr>history = Some [\<lparr>Time = ''12:00:00'', Throughput = PInt 10,
                               ErrorRate = PFloat (Fin 1)\<rparr>]\<rparr>,
          PDict [(''requests_per_min'', PInt 10), (''error_rate'', PFloat (float_of_rat (1 / 100)))])"
    by (simp add: fetch_update_def scenario_env_def quiet_env_def new_entry_def
        float_of_int_100 percent_1 tail_df_def)
  from history_record_derivation [THEN conjunct1, rule_format, OF h]
  obtain code kvs r where
    "PDict [(''requests_per_min'', PInt 10), (''error_rate'', PFloat (float_of_rat (1 / 100)))]
       = PDict kvs"
    "new_entry (clock_hms (scenario_env 10 (1 / 100)))
       (PDict [(''requests_per_min'', PInt 10),
               (''error_rate'', PFloat (float_of_rat (1 / 100)))]) = Inr r"
    "Throughput r = (case map_of kvs ''requests_per_min'' of None \<Rightarrow> PInt 0 | Some v \<Rightarrow> v)"
    "py_mul_int (case map_of kvs ''error_rate'' of None \<Rightarrow> PFloat (Fin 0) | Some v \<Rightarrow> v) 100
       = Inr (ErrorRate r)"
    by blast
  then have "new_entry (clock_hms (scenario_env 10 (1 / 100)))
             (PDict [(''requests_per_min'', PInt 10),
                     (''error_rate'', PFloat (float_of_rat (1 / 100)))]) = Inr r
          \<and> Throughput r = PInt 10
          \<and> py_mul_int (PFloat (float_of_rat (1 / 100))) 100 = Inr (ErrorRate r)"
    by auto
  with h show ?thesis by blast
qed

section \<open>Anomaly classification\<close>

lemma of_char_upper:
  "(of_char (upper_char c) :: nat) =
     (if 97 \<le> (of_char c :: nat) \<and> (of_char c :: nat) \<le> 122 then of_char c - 32 else of_char c)"
proof -
  have "(of_char c :: nat) - 32 < 256"
    using nat_of_char_less_256 [of c] by arith
  then show ?thesis by (simp add: upper_char_def Let_def)
qed

lemma of_char_lower:
  "(of_char (lower_char c) :: nat) =
     (if 65 \<le> (of_char c :: nat) \<and> (of_char c :: nat) \<le> 90 then of_char c + 32 else of_char c)"
  by (simp add: lower_char_def Let_def)

lemma upper_eq_iff_lower_eq:
  assumes "65 \<le> (of_char x :: nat)" and "(of_char x :: nat) \<le> 90"
  shows "upper_char c = x \<longleftrightarrow> lower_char c = lower_char x"
proof -
  have "upper_char c = x \<longleftrightarrow> (of_char (upper_char c) :: nat) = of_char x"
    by simp
  moreover have "lower_char c = lower_char x
      \<longleftrightarrow> (of_char (lower_char c) :: nat) = of_char (lower_char x)"
    by simp
  moreover have "(of_char (upper_char c) :: nat) = of_char x
      \<longleftrightarrow> (of_char (lower_char c) :: nat) = of_char (lower_char x)"
    unfolding of_char_upper of_char_lower using assms by auto
  ultimately show ?thesis by blast
qed

lemma map_upper_eq_iff:
  "\<forall>x\<in>set t. 65 \<le> (of_char x :: nat) \<and> (of_char x :: nat) \<le> 90 \<Longrightarrow>
   map upper_char w = t \<longleftrightarrow> map lower_char w = map lower_char t"
proof (induction w arbitrary: t)
  case Nil
  then show ?case by auto
next
  case (Cons c w)
  show ?case
  proof (cases t)
    case Nil
    then show ?thesis by simp
  next
    case (Cons x t')
    with Cons.prems Cons.IH [of t'] upper_eq_iff_lower_eq [of x c] show ?thesis
      by auto
  qed
qed

lemma py_in_iff: "py_in sub s \<longleftrightarrow> (\<exists>i\<in>{0..length s}. prefix sub (drop i s))"
proof (induction s)
  case Nil
  then show ?case by simp
next
  case (Cons c cs)
  have "(\<exists>i\<in>{0..length (c # cs)}. prefix sub (drop i (c # cs)))
      \<longleftrightarrow> prefix sub (c # cs) \<or> (\<exists>j\<in>{0..length cs}. prefix sub (drop j cs))"
  proof
    assume "\<exists>i\<in>{0..length (c # cs)}. prefix sub (drop i (c # cs))"
    then obtain i where i: "i \<le> length (c # cs)" "prefix sub (drop i (c # cs))" by auto
    show "prefix sub (c # cs) \<or> (\<exists>j\<in>{0..length cs}. prefix sub (drop j cs))"
    proof (cases i)
      case 0
      with i show ?thesis by simp
    next
      case (Suc j)
      with i have "j \<le> length cs" "prefix sub (drop j cs)" by simp_all
      then show ?thesis by auto
    qed
  next
    assume "prefix sub (c # cs) \<or> (\<exists>j\<in>{0..length cs}. prefix sub (drop j cs))"
    then show "\<exists>i\<in>{0..length (c # cs)}. prefix sub (drop i (c # cs))"
    proof
      assume "prefix sub (c # cs)"
      then have "prefix sub (drop 0 (c # cs))" by simp
      then show ?thesis by (intro bexI [of _ 0]) auto
    next
      assume "\<exists>j\<in>{0..length cs}. prefix sub (drop j cs)"
      then obtain j where "j \<le> length cs" "prefix sub (drop j cs)" by auto
      then have "Suc j \<in> {0..length (c # cs)}" "prefix sub (drop (Suc j) (c # cs))" by simp_all
      then show ?thesis by blast
    qed
  qed
  with Cons.IH show ?case by simp
qed

lemma prefix_iff_take: "prefix xs ys \<longleftrightarrow> take (length xs) ys = xs"
proof
  assume "prefix xs ys"
  then show "take (length xs) ys = xs" by (auto simp: prefix_def)
next
  assume "take (length xs) ys = xs"
  then have "ys = xs @ drop (length xs) ys" by (metis append_take_drop_id)
  then show "prefix xs ys" by (metis prefixI)
qed

lemma is_critical_iff: "is_critical s \<longleftrightarrow> contains_ci ''CRITICAL'' s"
proof -
  have up: "\<forall>x\<in>set ''CRITICAL''. 65 \<le> (of_char x :: nat) \<and> (of_char x :: nat) \<le> 90"
    by simp
  have "prefix ''CRITICAL'' (drop i (map upper_char s))
      \<longleftrightarrow> ci_equal (take (length ''CRITICAL'') (drop i s)) ''CRITICAL''" for i
  proof -
    have "prefix ''CRITICAL'' (drop i (map upper_char s))
        \<longleftrightarrow> map upper_char (take (length ''CRITICAL'') (drop i s)) = ''CRITICAL''"
      unfolding prefix_iff_take by (simp only: take_map drop_map)
    also have "\<dots> \<longleftrightarrow> map lower_char (take (length ''CRITICAL'') (drop i s))
                        = map lower_char ''CRITICAL''"
      by (rule map_upper_eq_iff [OF up])
    finally show ?thesis by (simp only: ci_equal_def)
  qed
  then show ?thesis
    by (simp only: is_critical_def py_upper_def py_in_iff contains_ci_def length_map)
qed

lemma render_alert_str: "render_alert (PStr s) = emit [alert_box s]"
  by (simp add: alert_box_def is_critical_iff)

lemma seq_emit: "seq (emit xs) (emit ys) = emit (xs @ ys)"
  by (simp add: seq_def emit_def)

lemma alerts_loop_strings: "alerts_loop (map PStr xs) = emit (map alert_box xs)"
  by (induction xs) (simp_all add: render_alert_str seq_emit del: render_alert.simps)




section \<open>The nominal state\<close>

lemma float_of_int_0: "float_of_int 0 = Inr (Fin 0)"
  by (simp add: float_of_int_def round_binary64_def)

lemma float_mul_0_100: "float_mul (Fin 0) (Fin 100) = Fin 0"
  by (simp add: float_mul_def is_inf_def round_binary64_def)









lemma seqs_Nil: "seqs [] = emit []"
  by (simp add: seqs_def)

lemma seqs_Cons: "seqs (r # rs) = seq r (seqs rs)"
  by (simp add: seqs_def)

lemma status_metric: "status_boxes (fst (metric l t)) = []"
  by (cases t) (simp_all add: metric_def emit_def status_boxes_def)

lemma status_seq_nil:
  "status_boxes (fst a) = [] \<Longrightarrow> status_boxes (fst b) = [] \<Longrightarrow> status_boxes (fst (seq a b)) = []"
  by (simp add: seq_def status_boxes_def split: option.splits)

lemma status_kpi: "status_boxes (fst (kpi_cards d)) = []"
  unfolding kpi_cards_def seqs_Cons seqs_Nil
  by (intro status_seq_nil status_metric) (simp add: emit_def status_boxes_def)


lemma latency_percentiles_dict:
  "latency_percentiles (PDict kvs) =
     emit [Subheader '' Latency Percentiles'',
           BarChart [(''P50'', case map_of kvs ''p50_latency'' of None \<Rightarrow> PInt 0 | Some v \<Rightarrow> v),
                     (''P95'', case map_of kvs ''p95_latency'' of None \<Rightarrow> PInt 0 | Some v \<Rightarrow> v),
                     (''P99'', case map_of kvs ''p99_latency'' of None \<Rightarrow> PInt 0 | Some v \<Rightarrow> v)]]"
  by (simp add: latency_percentiles_def)

lemma user_distribution_dict:
  "status_boxes (fst (user_distribution (PDict kvs))) = []"
  by (simp add: user_distribution_def emit_def status_boxes_def split: sum.splits)

lemma incident_log_strings:
  "anomalies_of kvs = PList (map PStr xs) \<Longrightarrow>
   incident_log (PDict kvs) =
     (Subheader '' Incident Log'' #
        (if xs = [] then [SuccessBox nominal_notice] else map alert_box xs), None)"
  by (simp add: incident_log_def anomalies_of_def alerts_loop_strings seq_def emit_def)

lemma status_alert_boxes: "status_boxes (map alert_box xs) = map alert_box xs"
  by (induction xs) (simp_all add: status_boxes_def alert_box_def)

lemma main_ui_dict:
  assumes "snd (kpi_cards (PDict kvs)) = None" and "snd (user_distribution (PDict kvs)) = None"
    and "anomalies_of kvs = PList (map PStr xs)"
  shows "snd (main_ui h (PDict kvs) e) = None
       \<and> status_boxes (fst (main_ui h (PDict kvs) e))
           = (if xs = [] then [SuccessBox nominal_notice] else map alert_box xs)"
proof -
  obtain k where k: "kpi_cards (PDict kvs) = (k, None)" and sk: "status_boxes k = []"
    using assms(1) status_kpi [of "PDict kvs"] by (cases "kpi_cards (PDict kvs)") auto
  obtain u where u: "user_distribution (PDict kvs) = (u, None)" and su: "status_boxes u = []"
    using assms(2) user_distribution_dict [of kvs] by (cases "user_distribution (PDict kvs)") auto
  show ?thesis
    unfolding main_ui_def seqs_Cons seqs_Nil k u latency_percentiles_dict trends_def
      incident_log_strings [OF assms(3)]
    using sk su status_alert_boxes [of xs]
    by (simp add: seq_def emit_def status_boxes_def)
qed



lemma user_distribution_absent:
  "map_of kvs ''per_user_requests'' = None \<Longrightarrow> snd (user_distribution (PDict kvs)) = None"
  by (simp add: user_distribution_def emit_def)


section \<open>Failure isolation\<close>

lemma state_depends_on_row:
  assumes "derived_record e1 = derived_record e2"
  shows "state (script_run s e1) = state (script_run s e2)"
proof (rule session.equality)
  show "history (state (script_run s e1)) = history (state (script_run s e2))"
  proof (cases "derived_record e2")
    case None
    with assms show ?thesis by (simp add: script_run_failure_history)
  next
    case (Some r)
    with assms show ?thesis by (simp add: script_run_success_history)
  qed
qed simp

lemma quiet_env_fails: "fetch_update s quiet_env = Inl RequestException"
  by (simp add: fetch_update_def quiet_env_def)

lemma derived_snapshot_env:
  "derived_record (snapshot_env p) =
     Some \<lparr>Time = ''12:00:00'', Throughput = PInt 10, ErrorRate = PFloat (Fin 0)\<rparr>"
  by (simp add: derived_record_def snapshot_env_def quiet_env_def new_entry_def
      float_of_int_100 float_mul_0_100)

lemma snapshot_env_main:
  "main (script_run \<lparr>history = Some []\<rparr> (snapshot_env 120)) ! 4
     = Metric ''P95 Latency'' [Fixed 0 (Fin 120), Lit '' ms'']"
  by (simp add: snapshot_env_def quiet_env_def script_run_def init_history_def fetch_update_def
      new_entry_def float_of_int_100 float_mul_0_100 tail_df_def main_ui_def
      seqs_def seq_def emit_def kpi_cards_def metric_def Let_def)

text \<open>
  Two fetched snapshots that differ in \<^verbatim>\<open>p95_latency\<close> leave the same session state: the
  state holds the history rows and no snapshot. After the first was shown (its P95 card is
  the fifth element of the main area), a run whose request raises shows the notice alone.
\<close>

theorem snapshot_retained_counterexample:
  "metrics_reply (snapshot_env 120) \<noteq> metrics_reply (snapshot_env 480)
   \<and> state (script_run \<lparr>history = Some []\<rparr> (snapshot_env 120))
       = state (script_run \<lparr>history = Some []\<rparr> (snapshot_env 480))
   \<and> main (script_run \<lparr>history = Some []\<rparr> (snapshot_env 120)) ! 4
       = Metric ''P95 Latency'' [Fixed 0 (Fin 120), Lit '' ms'']
   \<and> main (script_run (state (script_run \<lparr>history = Some []\<rparr> (snapshot_env 120))) quiet_env)
       = [PageStyle, ErrorBox unreachable_notice]"
proof -
  have a: "metrics_reply (snapshot_env 120) \<noteq> metrics_reply (snapshot_env 480)"
    by (simp add: snapshot_env_def)
  have b: "state (script_run \<lparr>history = Some []\<rparr> (snapshot_env 120))
       = state (script_run \<lparr>history = Some []\<rparr> (snapshot_env 480))"
    by (rule state_depends_on_row) (simp add: derived_snapshot_env)
  have e: "main (script_run s quiet_env) = [PageStyle, ErrorBox unreachable_notice]" for s
    by (simp add: script_run_failed [OF quiet_env_fails])
  from a b snapshot_env_main e show ?thesis by blast
qed

text \<open>
  C3, amended. A fetch cycle that fails because the request raises or because the body does
  not parse leaves the session state as it was when the cycle began: nothing is appended to
  the history and nothing is evicted. The main area shows the backend-unreachable notice
  alone and the run stops there. No snapshot is kept from one run to the next: the state
  after a run depends on the reply only through the row derived from it.
\<close>

theorem failure_isolation:
  assumes "metrics_reply e = RequestFailed \<or> metrics_reply e = Response code None"
  shows "state (script_run s0 e) = init_history s0
       \<and> (history s0 \<noteq> None \<longrightarrow> state (script_run s0 e) = s0)
       \<and> main (script_run s0 e) = [PageStyle, ErrorBox unreachable_notice]
       \<and> ending (script_run s0 e) = Stopped
       \<and> (\<forall>e1 e2. derived_record e1 = derived_record e2 \<longrightarrow>
             state (script_run s0 e1) = state (script_run s0 e2))"
proof -
  from assms have "\<exists>ex. fetch_update (init_history s0) e = Inl ex"
    by (auto simp: fetch_update_def)
  then obtain ex where "fetch_update (init_history s0) e = Inl ex" ..
  then have run: "script_run s0 e =
     \<lparr>state = init_history s0,
      calls = fst (sidebar_block e) @ [Get (API_URL @ ''/metrics'') REQUEST_TIMEOUT],
      sidebar = snd (sidebar_block e),
      main = [PageStyle, ErrorBox unreachable_notice], ending = Stopped\<rparr>"
    by (rule script_run_failed)
  have a: "state (script_run s0 e) = init_history s0"
    and c: "main (script_run s0 e) = [PageStyle, ErrorBox unreachable_notice]"
    and d: "ending (script_run s0 e) = Stopped"
    by (simp_all add: run)
  have b: "history s0 \<noteq> None \<longrightarrow> state (script_run s0 e) = s0"
    using init_history_Some [of s0] a by auto
  have f: "\<forall>e1 e2. derived_record e1 = derived_record e2 \<longrightarrow>
             state (script_run s0 e1) = state (script_run s0 e2)"
    using state_depends_on_row by blast
  from a b c d f show ?thesis by (intro conjI)
qed

theorem failure_isolation_witness:
  "metrics_reply quiet_env = RequestFailed
   \<and> state (script_run \<lparr>history = Some one_row\<rparr> quiet_env) = \<lparr>history = Some one_row\<rparr>
   \<and> main (script_run \<lparr>history = Some one_row\<rparr> quiet_env)
       = [PageStyle, ErrorBox unreachable_notice]
   \<and> ending (script_run \<lparr>history = Some one_row\<rparr> quiet_env) = Stopped
   \<and> derived_record (snapshot_env 120) = derived_record (snapshot_env 480)
   \<and> state (script_run \<lparr>history = Some one_row\<rparr> (snapshot_env 120))
       = state (script_run \<lparr>history = Some one_row\<rparr> (snapshot_env 480))"
proof -
  have r: "metrics_reply quiet_env = RequestFailed"
    by (simp add: quiet_env_def)
  then have h: "metrics_reply quiet_env = RequestFailed \<or> metrics_reply quiet_env = Response 0 None"
    by simp
  note t = failure_isolation [OF h, of "\<lparr>history = Some one_row\<rparr>"]
  have de: "derived_record (snapshot_env 120) = derived_record (snapshot_env 480)"
    by (simp add: derived_snapshot_env)
  have f: "state (script_run \<lparr>history = Some one_row\<rparr> (snapshot_env 120))
       = state (script_run \<lparr>history = Some one_row\<rparr> (snapshot_env 480))"
    using t de by blast
  have a: "state (script_run \<lparr>history = Some one_row\<rparr> quiet_env)
      = init_history \<lparr>history = Some one_row\<rparr>"
    using t by (rule conjunct1)
  have c: "main (script_run \<lparr>history = Some one_row\<rparr> quiet_env)
       = [PageStyle, ErrorBox unreachable_notice]"
    using t by blast
  have d: "ending (script_run \<lparr>history = Some one_row\<rparr> quiet_env) = Stopped"
    using t by blast
  have i: "init_history \<lparr>history = Some one_row\<rparr> = \<lparr>history = Some one_row\<rparr>"
    by (simp add: init_history_def)
  from a i have a': "state (script_run \<lparr>history = Some one_row\<rparr> quiet_env)
      = \<lparr>history = Some one_row\<rparr>"
    by simp
  from r a' c d de f show ?thesis by (intro conjI)
qed

section \<open>The sensitivity setting\<close>

lemma burst_loop_posts:
  "burst_loop e js = (map (\<lambda>i. Post (API_URL @ ''/ingest'') (make_log (draws e i)) 1) js, [])"
  by (induction js) (simp_all add: Let_def split: sum.splits)

lemma sidebar_block_k:
  "fst (sidebar_block (e\<lparr>k_threshold := k\<rparr>)) = fst (sidebar_block e)"
  by (simp add: sidebar_block_def Let_def burst_loop_posts)

lemma fetch_update_k: "fetch_update s (e\<lparr>k_threshold := k\<rparr>) = fetch_update s e"
  by (simp add: fetch_update_def split: http_result.splits option.splits)

lemma main_ui_k: "main_ui h data (e\<lparr>k_threshold := k\<rparr>) = main_ui h data e"
  by (simp add: main_ui_def)

lemma script_run_k:
  "state (script_run s (e\<lparr>k_threshold := k\<rparr>)) = state (script_run s e)
   \<and> calls (script_run s (e\<lparr>k_threshold := k\<rparr>)) = calls (script_run s e)
   \<and> main (script_run s (e\<lparr>k_threshold := k\<rparr>)) = main (script_run s e)
   \<and> ending (script_run s (e\<lparr>k_threshold := k\<rparr>)) = ending (script_run s e)"
  by (simp add: script_run_def Let_def sidebar_block_k fetch_update_k main_ui_k
      split: sum.splits prod.splits)

lemma run_cycles_k:
  "run_cycles s (map (\<lambda>e. e\<lparr>k_threshold := k\<rparr>) es) = run_cycles s es"
  by (induction es arbitrary: s) (simp_all add: script_run_k)

text \<open>
  C9. The slider value \<^verbatim>\<open>k_threshold\<close> is read and never used. For any two values, and the
  same replies of the backend, a run leaves the same session state (so the same history
  rows), makes the same requests, draws the same main area (KPI cards, charts and the
  classified anomalies) and ends the same way; so does any sequence of runs.
\<close>

theorem sensitivity_has_no_effect:
  "state (script_run s (e\<lparr>k_threshold := ka\<rparr>)) = state (script_run s (e\<lparr>k_threshold := kb\<rparr>))
   \<and> calls (script_run s (e\<lparr>k_threshold := ka\<rparr>)) = calls (script_run s (e\<lparr>k_threshold := kb\<rparr>))
   \<and> main (script_run s (e\<lparr>k_threshold := ka\<rparr>)) = main (script_run s (e\<lparr>k_threshold := kb\<rparr>))
   \<and> ending (script_run s (e\<lparr>k_threshold := ka\<rparr>)) = ending (script_run s (e\<lparr>k_threshold := kb\<rparr>))
   \<and> run_cycles s (map (\<lambda>e. e\<lparr>k_threshold := ka\<rparr>) es)
       = run_cycles s (map (\<lambda>e. e\<lparr>k_threshold := kb\<rparr>) es)"
  by (simp add: script_run_k run_cycles_k)

theorem sensitivity_has_no_effect_witness:
  "state (script_run \<lparr>history = None\<rparr> (alerts_env\<lparr>k_threshold := Fin (1 / 2)\<rparr>))
     = state (script_run \<lparr>history = None\<rparr> (alerts_env\<lparr>k_threshold := Fin 3\<rparr>))
   \<and> main (script_run \<lparr>history = None\<rparr> (alerts_env\<lparr>k_threshold := Fin (1 / 2)\<rparr>))
     = main (script_run \<lparr>history = None\<rparr> (alerts_env\<lparr>k_threshold := Fin 3\<rparr>))"
  using sensitivity_has_no_effect
    [where s = "\<lparr>history = None\<rparr>" and e = alerts_env and ka = "Fin (1 / 2)" and kb = "Fin 3"
       and es = "[]"]
  by blast

section \<open>Burst logs\<close>

lemma float_008: "float_of_rat (2 / 25) = Fin (5764607523034235 / 2 ^ 56)"
  by code_simp

lemma is_error_iff:
  "is_error (make_log d) \<longleftrightarrow> unif d mod 2 ^ 53 < 720575940379280"
proof -
  have "is_error (make_log d)
      \<longleftrightarrow> (of_nat (unif d mod 2 ^ 53) :: rat) / 2 ^ 53 < 5764607523034235 / 2 ^ 56"
    by (simp add: make_log_def random_random_def float_lt_def float_008)
  also have "\<dots> \<longleftrightarrow> (of_nat (unif d mod 2 ^ 53) :: rat) * 8 < 5764607523034235"
    by (simp add: field_simps)
  also have "\<dots> \<longleftrightarrow> (of_nat (unif d mod 2 ^ 53 * 8) :: rat) < of_nat 5764607523034235"
    by simp
  also have "\<dots> \<longleftrightarrow> unif d mod 2 ^ 53 * 8 < 5764607523034235"
    by (simp only: of_nat_less_iff)
  also have "\<dots> \<longleftrightarrow> unif d mod 2 ^ 53 < 720575940379280"
    by arith
  finally show ?thesis .
qed

lemma flag_iff:
  "float_lt (random_random k) (float_of_rat (8 / 100)) \<longleftrightarrow> k mod 2 ^ 53 < 720575940379280"
proof -
  have "is_error (make_log \<lparr>stamp = [], pick = 0, lat = 0, tok = 0, unif = k\<rparr>)
      \<longleftrightarrow> k mod 2 ^ 53 < 720575940379280"
    using is_error_iff [of "\<lparr>stamp = [], pick = 0, lat = 0, tok = 0, unif = k\<rparr>"] by simp
  then show ?thesis by (simp add: make_log_def)
qed

lemma flag_count:
  "card {k. k < 2 ^ 53 \<and> float_lt (random_random k) (float_of_rat (8 / 100))} = 720575940379280"
proof -
  have "{k. k < 2 ^ 53 \<and> float_lt (random_random k) (float_of_rat (8 / 100))}
      = {..<(720575940379280::nat)}"
  proof (rule set_eqI)
    fix k :: nat
    have "k < 2 ^ 53 \<and> k mod 2 ^ 53 < 720575940379280 \<longleftrightarrow> k < 720575940379280"
    proof
      assume b: "k < 2 ^ 53 \<and> k mod 2 ^ 53 < 720575940379280"
      then have "k mod 2 ^ 53 = k" by (intro mod_less) simp
      with b show "k < 720575940379280" by (simp only:)
    next
      assume a: "k < 720575940379280"
      then have c: "k < 2 ^ 53" by simp
      then have "k mod 2 ^ 53 = k" by (intro mod_less)
      with a c show "k < 2 ^ 53 \<and> k mod 2 ^ 53 < 720575940379280" by (simp only: simp_thms)
    qed
    then show "k \<in> {k. k < 2 ^ 53 \<and> float_lt (random_random k) (float_of_rat (8 / 100))}
        \<longleftrightarrow> k \<in> {..<(720575940379280::nat)}"
      unfolding mem_Collect_eq flag_iff lessThan_iff .
  qed
  then show ?thesis by (simp only: card_lessThan)
qed

lemma make_log_ranges:
  "user_id (make_log d) \<in> set [''alice_001'', ''bob_002'', ''charlie_003'']
   \<and> 100 \<le> latency_ms (make_log d) \<and> latency_ms (make_log d) \<le> 1500
   \<and> 50 \<le> tokens_used (make_log d) \<and> tokens_used (make_log d) \<le> 2000"
proof -
  have "pick d mod 3 < 3" by simp
  then have "pick d mod 3 = 0 \<or> pick d mod 3 = 1 \<or> pick d mod 3 = 2" by arith
  then have u: "user_id (make_log d) \<in> set [''alice_001'', ''bob_002'', ''charlie_003'']"
    by (auto simp: make_log_def random_choice_def)
  have "lat d mod 1401 \<le> 1400"
    using mod_less_divisor [of 1401 "lat d"] by arith
  moreover have "tok d mod 1951 \<le> 1950"
    using mod_less_divisor [of 1951 "tok d"] by arith
  ultimately have "100 \<le> latency_ms (make_log d) \<and> latency_ms (make_log d) \<le> 1500
   \<and> 50 \<le> tokens_used (make_log d) \<and> tokens_used (make_log d) \<le> 2000"
    by (simp add: make_log_def random_randint_def)
  with u show ?thesis by blast
qed

lemma sidebar_block_burst:
  "burst_clicked e \<Longrightarrow>
   sidebar_block e =
     (map (\<lambda>i. Post (API_URL @ ''/ingest'') (make_log (draws e i)) 1) [0..<30],
      sidebar_widgets e @ [SuccessBox ''Burst sent to API!''])"
  by (simp add: sidebar_block_def Let_def burst_loop_posts sidebar_widgets_def del: upt_Suc)

lemma script_run_side:
  "calls (script_run s e) = fst (sidebar_block e) @ [Get (API_URL @ ''/metrics'') REQUEST_TIMEOUT]
   \<and> sidebar (script_run s e) = snd (sidebar_block e)"
  by (simp add: script_run_def Let_def split: sum.splits prod.splits)

lemma fetch_update_post: "fetch_update s (e\<lparr>post_raises := f\<rparr>) = fetch_update s e"
  by (simp add: fetch_update_def split: http_result.splits option.splits)

lemma main_ui_post: "main_ui h data (e\<lparr>post_raises := f\<rparr>) = main_ui h data e"
  by (simp add: main_ui_def)

lemma sidebar_block_post: "sidebar_block (e\<lparr>post_raises := f\<rparr>) = sidebar_block e"
  by (simp add: sidebar_block_def Let_def burst_loop_posts)

lemma script_run_post: "script_run s (e\<lparr>post_raises := f\<rparr>) = script_run s e"
  by (simp add: script_run_def Let_def sidebar_block_post fetch_update_post main_ui_post
      split: sum.splits prod.splits)

text \<open>
  C7. When the button is pressed, the run attempts exactly 30 POSTs to the ingest
  endpoint, each with a timeout of 1, before its one GET. In every payload the user
  identifier is one of three, the latency lies in 100..1500 and the token count in
  50..2000. The error flag is the event \<^verbatim>\<open>random.random() < 0.08\<close>: it holds for
  720575940379280 of the \<open>2 ^ 53\<close> values the generator can return, a share within
  \<open>1 / 2 ^ 53\<close> of 0.08. Whatever requests raise, the run is the same: the sidebar shows
  its widgets and the ``sent'' confirmation, and nothing else.
\<close>

theorem burst_logs:
  assumes "burst_clicked e"
  shows "calls (script_run s e) =
           map (\<lambda>i. Post (API_URL @ ''/ingest'') (make_log (draws e i)) 1) [0..<30]
           @ [Get (API_URL @ ''/metrics'') REQUEST_TIMEOUT]
       \<and> length (map (\<lambda>i. Post (API_URL @ ''/ingest'') (make_log (draws e i)) 1) [0..<30]) = 30
       \<and> (\<forall>i. user_id (make_log (draws e i)) \<in> set [''alice_001'', ''bob_002'', ''charlie_003'']
              \<and> 100 \<le> latency_ms (make_log (draws e i)) \<and> latency_ms (make_log (draws e i)) \<le> 1500
              \<and> 50 \<le> tokens_used (make_log (draws e i)) \<and> tokens_used (make_log (draws e i)) \<le> 2000
              \<and> (is_error (make_log (draws e i)) \<longleftrightarrow> unif (draws e i) mod 2 ^ 53 < 720575940379280))
       \<and> sidebar (script_run s e) = sidebar_widgets e @ [SuccessBox ''Burst sent to API!'']
       \<and> (\<forall>f. script_run s (e\<lparr>post_raises := f\<rparr>) = script_run s e)
       \<and> card {k. k < 2 ^ 53 \<and> float_lt (random_random k) (float_of_rat (8 / 100))}
           = 720575940379280
       \<and> \<bar>720575940379280 / 2 ^ 53 - 8 / 100\<bar> < (1 / 2 ^ 53 :: rat)"
proof -
  have a: "calls (script_run s e) =
           map (\<lambda>i. Post (API_URL @ ''/ingest'') (make_log (draws e i)) 1) [0..<30]
           @ [Get (API_URL @ ''/metrics'') REQUEST_TIMEOUT]"
    and d: "sidebar (script_run s e) = sidebar_widgets e @ [SuccessBox ''Burst sent to API!'']"
    using script_run_side [of s e] by (simp_all add: sidebar_block_burst [OF assms])
  have b: "length (map (\<lambda>i. Post (API_URL @ ''/ingest'') (make_log (draws e i)) 1) [0..<30]) = 30"
    by simp
  have c: "\<forall>i. user_id (make_log (draws e i)) \<in> set [''alice_001'', ''bob_002'', ''charlie_003'']
              \<and> 100 \<le> latency_ms (make_log (draws e i)) \<and> latency_ms (make_log (draws e i)) \<le> 1500
              \<and> 50 \<le> tokens_used (make_log (draws e i)) \<and> tokens_used (make_log (draws e i)) \<le> 2000
              \<and> (is_error (make_log (draws e i)) \<longleftrightarrow> unif (draws e i) mod 2 ^ 53 < 720575940379280)"
    using make_log_ranges is_error_iff by blast
  have f: "\<forall>f. script_run s (e\<lparr>post_raises := f\<rparr>) = script_run s e"
    using script_run_post by blast
  have g: "\<bar>720575940379280 / 2 ^ 53 - 8 / 100\<bar> < (1 / 2 ^ 53 :: rat)"
    by simp
  note h = flag_count
  from a b c d f h g show ?thesis by (intro conjI)
qed

theorem burst_logs_witness:
  "burst_clicked burst_env
   \<and> length (calls (script_run \<lparr>history = None\<rparr> burst_env)) = 31
   \<and> is_error (make_log (draws burst_env 0))
   \<and> sidebar (script_run \<lparr>history = None\<rparr> burst_env)
       = sidebar_widgets burst_env @ [SuccessBox ''Burst sent to API!'']"
proof -
  have h: "burst_clicked burst_env"
    by (simp add: burst_env_def quiet_env_def)
  note t = burst_logs [OF h, of "\<lparr>history = None\<rparr>"]
  have a: "calls (script_run \<lparr>history = None\<rparr> burst_env) =
           map (\<lambda>i. Post (API_URL @ ''/ingest'') (make_log (draws burst_env i)) 1) [0..<30]
           @ [Get (API_URL @ ''/metrics'') REQUEST_TIMEOUT]"
    using t by (rule conjunct1)
  have b: "length (calls (script_run \<lparr>history = None\<rparr> burst_env)) = 31"
    unfolding a by simp
  have "is_error (make_log (draws burst_env 0))
      \<longleftrightarrow> unif (draws burst_env 0) mod 2 ^ 53 < 720575940379280"
    using t by blast
  then have c: "is_error (make_log (draws burst_env 0))"
    by (simp add: burst_env_def quiet_env_def)
  have d: "sidebar (script_run \<lparr>history = None\<rparr> burst_env)
       = sidebar_widgets burst_env @ [SuccessBox ''Burst sent to API!'']"
    using t by blast
  from h b c d show ?thesis by (intro conjI)
qed

section \<open>Missing fields and the unreachable branch\<close>

lemma script_run_reply:
  assumes "metrics_reply e = Response code (Some data)"
  shows "script_run s e =
     (case new_entry (clock_hms e) data of
        Inl ex \<Rightarrow>
          \<lparr>state = init_history s,
           calls = fst (sidebar_block e) @ [Get (API_URL @ ''/metrics'') REQUEST_TIMEOUT],
           sidebar = snd (sidebar_block e),
           main = [PageStyle, ErrorBox unreachable_notice], ending = Stopped\<rparr>
      | Inr r \<Rightarrow>
          \<lparr>state = (init_history s)\<lparr>history := Some (tail_df 20 (buffer s @ [r]))\<rparr>,
           calls = fst (sidebar_block e) @ [Get (API_URL @ ''/metrics'') REQUEST_TIMEOUT],
           sidebar = snd (sidebar_block e),
           main = PageStyle # fst (main_ui (tail_df 20 (buffer s @ [r])) data e),
           ending = (case snd (main_ui (tail_df 20 (buffer s @ [r])) data e) of
                       None \<Rightarrow> Completed | Some ex \<Rightarrow> Crashed ex)\<rparr>)"
proof (cases "new_entry (clock_hms e) data")
  case (Inl ex)
  then have "fetch_update (init_history s) e = Inl ex"
    by (simp add: fetch_update_def assms)
  from script_run_failed [OF this] Inl show ?thesis by simp
next
  case (Inr r)
  then have "fetch_update (init_history s) e =
      Inr ((init_history s)\<lparr>history := Some (tail_df 20 (buffer s @ [r]))\<rparr>, data)"
    by (simp add: fetch_update_def assms history_init)
  with Inr show ?thesis
    by (simp add: script_run_def Let_def)
qed

lemma sidebar_block_reply: "sidebar_block (e\<lparr>metrics_reply := r\<rparr>) = sidebar_block e"
  by (simp add: sidebar_block_def Let_def burst_loop_posts)

lemma main_ui_reply: "main_ui h data (e\<lparr>metrics_reply := r\<rparr>) = main_ui h data e"
  by (simp add: main_ui_def)

lemma script_run_with_reply:
  "script_run s (e\<lparr>metrics_reply := Response code (Some data)\<rparr>) =
     (case new_entry (clock_hms e) data of
        Inl ex \<Rightarrow>
          \<lparr>state = init_history s,
           calls = fst (sidebar_block e) @ [Get (API_URL @ ''/metrics'') REQUEST_TIMEOUT],
           sidebar = snd (sidebar_block e),
           main = [PageStyle, ErrorBox unreachable_notice], ending = Stopped\<rparr>
      | Inr r \<Rightarrow>
          \<lparr>state = (init_history s)\<lparr>history := Some (tail_df 20 (buffer s @ [r]))\<rparr>,
           calls = fst (sidebar_block e) @ [Get (API_URL @ ''/metrics'') REQUEST_TIMEOUT],
           sidebar = snd (sidebar_block e),
           main = PageStyle # fst (main_ui (tail_df 20 (buffer s @ [r])) data e),
           ending = (case snd (main_ui (tail_df 20 (buffer s @ [r])) data e) of
                       None \<Rightarrow> Completed | Some ex \<Rightarrow> Crashed ex)\<rparr>)"
proof -
  have "metrics_reply (e\<lparr>metrics_reply := Response code (Some data)\<rparr>) = Response code (Some data)"
    by simp
  from script_run_reply [OF this, of s] show ?thesis
    by (simp add: sidebar_block_reply main_ui_reply split: sum.splits)
qed

lemma py_get_default:
  assumes "map_of kvs k = None" and "k' = k \<longrightarrow> d' = d"
  shows "py_get (PDict (kvs @ [(k, d)])) k' d' = py_get (PDict kvs) k' d'"
  using assms by (auto simp: map_add_def split: option.splits)

lemma field_defaults_get:
  assumes "(k, d) \<in> set field_defaults" and "map_of kvs k = None"
    and "(k', d') \<in> set field_defaults"
  shows "py_get (PDict (kvs @ [(k, d)])) k' d' = py_get (PDict kvs) k' d'"
proof (rule py_get_default [OF assms(2)])
  show "k' = k \<longrightarrow> d' = d"
    using assms(1,3) by (auto simp: field_defaults_def)
qed

lemma blocks_default:
  assumes "(k, d) \<in> set field_defaults" and "map_of kvs k = None"
  shows "new_entry now (PDict (kvs @ [(k, d)])) = new_entry now (PDict kvs)"
    and "main_ui h (PDict (kvs @ [(k, d)])) e = main_ui h (PDict kvs) e"
proof -
  note g = field_defaults_get [OF assms]
  have g1: "py_get (PDict (kvs @ [(k, d)])) ''requests_per_min'' (PInt 0)
      = py_get (PDict kvs) ''requests_per_min'' (PInt 0)"
    by (rule g) (simp add: field_defaults_def)
  have g2: "py_get (PDict (kvs @ [(k, d)])) ''error_rate'' (PFloat (Fin 0))
      = py_get (PDict kvs) ''error_rate'' (PFloat (Fin 0))"
    by (rule g) (simp add: field_defaults_def)
  have g3: "py_get (PDict (kvs @ [(k, d)])) ''p50_latency'' (PInt 0)
      = py_get (PDict kvs) ''p50_latency'' (PInt 0)"
    by (rule g) (simp add: field_defaults_def)
  have g4: "py_get (PDict (kvs @ [(k, d)])) ''p95_latency'' (PInt 0)
      = py_get (PDict kvs) ''p95_latency'' (PInt 0)"
    by (rule g) (simp add: field_defaults_def)
  have g5: "py_get (PDict (kvs @ [(k, d)])) ''p99_latency'' (PInt 0)
      = py_get (PDict kvs) ''p99_latency'' (PInt 0)"
    by (rule g) (simp add: field_defaults_def)
  have g6: "py_get (PDict (kvs @ [(k, d)])) ''estimated_cost_usd'' (PFloat (Fin 0))
      = py_get (PDict kvs) ''estimated_cost_usd'' (PFloat (Fin 0))"
    by (rule g) (simp add: field_defaults_def)
  have g7: "py_get (PDict (kvs @ [(k, d)])) ''per_user_requests'' (PDict [])
      = py_get (PDict kvs) ''per_user_requests'' (PDict [])"
    by (rule g) (simp add: field_defaults_def)
  have g8: "py_get (PDict (kvs @ [(k, d)])) ''anomalies'' (PList [])
      = py_get (PDict kvs) ''anomalies'' (PList [])"
    by (rule g) (simp add: field_defaults_def)
  show "new_entry now (PDict (kvs @ [(k, d)])) = new_entry now (PDict kvs)"
    by (simp only: new_entry_def g1 g2)
  show "main_ui h (PDict (kvs @ [(k, d)])) e = main_ui h (PDict kvs) e"
    by (simp only: main_ui_def kpi_cards_def latency_percentiles_def user_distribution_def
        incident_log_def g1 g2 g3 g4 g5 g6 g7 g8)
qed

lemma absent_is_default:
  assumes "(k, d) \<in> set field_defaults" and "map_of kvs k = None"
  shows "script_run s (e\<lparr>metrics_reply := Response code (Some (PDict (kvs @ [(k, d)])))\<rparr>)
       = script_run s (e\<lparr>metrics_reply := Response code (Some (PDict kvs))\<rparr>)"
  by (simp only: script_run_with_reply blocks_default [OF assms])

lemma py_mul_int_100:
  "(\<exists>ex. py_mul_int v 100 = Inl ex) \<longleftrightarrow> v = PNone \<or> (\<exists>d. v = PDict d)"
  by (cases v) (simp_all add: float_of_int_100)

lemma new_entry_fails_iff:
  "(\<exists>ex. new_entry now data = Inl ex) \<longleftrightarrow>
     (case data of
        PDict kvs \<Rightarrow>
          (case map_of kvs ''error_rate'' of
             Some PNone \<Rightarrow> True
           | Some (PDict d) \<Rightarrow> True
           | _ \<Rightarrow> False)
      | _ \<Rightarrow> True)"
proof (cases data)
  case (PDict kvs)
  have "(\<exists>ex. new_entry now (PDict kvs) = Inl ex) \<longleftrightarrow>
      (\<exists>ex. py_mul_int (case map_of kvs ''error_rate'' of None \<Rightarrow> PFloat (Fin 0) | Some v \<Rightarrow> v) 100
         = Inl ex)"
    by (auto simp: new_entry_def split: sum.splits)
  also have "\<dots> \<longleftrightarrow>
      (case map_of kvs ''error_rate'' of Some PNone \<Rightarrow> True | Some (PDict d) \<Rightarrow> True | _ \<Rightarrow> False)"
    unfolding py_mul_int_100 by (auto split: option.splits pyval.splits)
  finally show ?thesis by (simp add: PDict)
qed (simp_all add: new_entry_def)

lemma derived_None_iff: "derived_record e = None \<longleftrightarrow> unreachable_branch (metrics_reply e)"
proof (cases "metrics_reply e")
  case RequestFailed
  then show ?thesis by (simp add: derived_record_def)
next
  case (Response code body)
  show ?thesis
  proof (cases body)
    case None
    with Response show ?thesis by (simp add: derived_record_def)
  next
    case (Some data)
    have "derived_record e = None \<longleftrightarrow> (\<exists>ex. new_entry (clock_hms e) data = Inl ex)"
      by (auto simp: derived_record_def Response Some split: sum.splits)
    also have "\<dots> \<longleftrightarrow> unreachable_branch (Response code (Some data))"
      unfolding new_entry_fails_iff by (cases data) simp_all
    finally show ?thesis by (simp add: Response Some)
  qed
qed


lemma script_run_by_row:
  "script_run s e =
     (case derived_record e of
        None \<Rightarrow>
          \<lparr>state = init_history s,
           calls = fst (sidebar_block e) @ [Get (API_URL @ ''/metrics'') REQUEST_TIMEOUT],
           sidebar = snd (sidebar_block e),
           main = [PageStyle, ErrorBox unreachable_notice], ending = Stopped\<rparr>
      | Some r \<Rightarrow>
          \<lparr>state = (init_history s)\<lparr>history := Some (tail_df 20 (buffer s @ [r]))\<rparr>,
           calls = fst (sidebar_block e) @ [Get (API_URL @ ''/metrics'') REQUEST_TIMEOUT],
           sidebar = snd (sidebar_block e),
           main = PageStyle #
             fst (main_ui (tail_df 20 (buffer s @ [r]))
                    (case metrics_reply e of Response code (Some data) \<Rightarrow> data) e),
           ending = (case snd (main_ui (tail_df 20 (buffer s @ [r]))
                                 (case metrics_reply e of Response code (Some data) \<Rightarrow> data) e) of
                       None \<Rightarrow> Completed | Some ex \<Rightarrow> Crashed ex)\<rparr>)"
proof (cases "derived_record e")
  case None
  then have "\<exists>ex. fetch_update (init_history s) e = Inl ex"
    by (auto simp: derived_record_def fetch_update_def
        split: http_result.splits option.splits sum.splits)
  then obtain ex where "fetch_update (init_history s) e = Inl ex" ..
  from script_run_failed [OF this] None show ?thesis by simp
next
  case (Some r)
  then obtain code data where rep: "metrics_reply e = Response code (Some data)"
    and r: "new_entry (clock_hms e) data = Inr r"
    by (auto simp: derived_record_def split: http_result.splits option.splits sum.splits)
  from script_run_reply [OF rep, of s] r Some rep show ?thesis by simp
qed

lemma ending_Stopped_iff: "ending (script_run s e) = Stopped \<longleftrightarrow> derived_record e = None"
  by (cases "derived_record e") (simp_all add: script_run_by_row split: option.splits)



lemma kpi_cards_absent:
  assumes "map_of kvs ''requests_per_min'' = None" and "map_of kvs ''error_rate'' = None"
    and "map_of kvs ''p95_latency'' = None" and "map_of kvs ''estimated_cost_usd'' = None"
  shows "snd (kpi_cards (PDict kvs)) = None"
  by (simp add: kpi_cards_def seqs_def seq_def metric_def emit_def assms
      float_of_int_100 float_of_int_0)

text \<open>
  C4, amended. For every payload that is a JSON object, a field that is absent behaves
  exactly as the field holding its default (zero, the empty mapping, the empty sequence): the
  whole run is the same. A missing field never fails the fetch: with \<^verbatim>\<open>error_rate\<close> absent
  a row is derived, and with all eight fields absent the run completes. A fetch fails only
  when the request raises, the body does not parse, the parsed body is not an object, or
  \<^verbatim>\<open>error_rate\<close> is present and is null or an object.
\<close>

theorem missing_fields_default:
  "(\<forall>k d. (k, d) \<in> set field_defaults \<and> map_of kvs k = None \<longrightarrow>
       script_run s (e\<lparr>metrics_reply := Response code (Some (PDict (kvs @ [(k, d)])))\<rparr>)
         = script_run s (e\<lparr>metrics_reply := Response code (Some (PDict kvs))\<rparr>))
   \<and> (map_of kvs ''error_rate'' = None \<longrightarrow>
         (\<exists>r. derived_record (e\<lparr>metrics_reply := Response code (Some (PDict kvs))\<rparr>) = Some r))
   \<and> ((\<forall>k \<in> fst ` set field_defaults. map_of kvs k = None) \<longrightarrow>
         ending (script_run s (e\<lparr>metrics_reply := Response code (Some (PDict kvs))\<rparr>)) = Completed)
   \<and> (ending (script_run s e) = Stopped \<longrightarrow>
         metrics_reply e = RequestFailed
         \<or> (\<exists>c. metrics_reply e = Response c None)
         \<or> (\<exists>c v. metrics_reply e = Response c (Some v) \<and> (\<forall>d. v \<noteq> PDict d))
         \<or> (\<exists>c d v. metrics_reply e = Response c (Some (PDict d))
                \<and> map_of d ''error_rate'' = Some v \<and> (v = PNone \<or> (\<exists>d'. v = PDict d'))))"
proof -
  let ?e = "e\<lparr>metrics_reply := Response code (Some (PDict kvs))\<rparr>"
  have a: "\<forall>k d. (k, d) \<in> set field_defaults \<and> map_of kvs k = None \<longrightarrow>
       script_run s (e\<lparr>metrics_reply := Response code (Some (PDict (kvs @ [(k, d)])))\<rparr>)
         = script_run s ?e"
    using absent_is_default by blast
  have b: "\<exists>r. derived_record ?e = Some r" if "map_of kvs ''error_rate'' = None"
  proof -
    have "\<not> unreachable_branch (metrics_reply ?e)"
      using that by simp
    then have "derived_record ?e \<noteq> None"
      by (simp only: derived_None_iff not_False_eq_True)
    then show ?thesis by auto
  qed
  have c: "ending (script_run s ?e) = Completed"
    if all: "\<forall>k \<in> fst ` set field_defaults. map_of kvs k = None"
  proof -
    from all have abs: "map_of kvs ''requests_per_min'' = None" "map_of kvs ''error_rate'' = None"
      "map_of kvs ''p95_latency'' = None" "map_of kvs ''estimated_cost_usd'' = None"
      "map_of kvs ''anomalies'' = None" "map_of kvs ''per_user_requests'' = None"
      by (simp_all add: field_defaults_def)
    have k: "snd (kpi_cards (PDict kvs)) = None"
      using abs by (intro kpi_cards_absent)
    have an: "anomalies_of kvs = PList (map PStr [])"
      using abs by (simp add: anomalies_of_def)
    have ne: "\<exists>r. new_entry (clock_hms e) (PDict kvs) = Inr r"
      using abs by (simp add: new_entry_def float_of_int_100)
    then obtain r where r: "new_entry (clock_hms e) (PDict kvs) = Inr r" ..
    have "snd (main_ui (tail_df 20 (buffer s @ [r])) (PDict kvs) e) = None"
      using main_ui_dict [OF k user_distribution_absent an] abs by blast
    then show ?thesis
      by (simp add: script_run_with_reply r)
  qed
  have d: "metrics_reply e = RequestFailed
         \<or> (\<exists>c. metrics_reply e = Response c None)
         \<or> (\<exists>c v. metrics_reply e = Response c (Some v) \<and> (\<forall>d. v \<noteq> PDict d))
         \<or> (\<exists>c d v. metrics_reply e = Response c (Some (PDict d))
                \<and> map_of d ''error_rate'' = Some v \<and> (v = PNone \<or> (\<exists>d'. v = PDict d')))"
    if st: "ending (script_run s e) = Stopped"
  proof -
    from st have u: "unreachable_branch (metrics_reply e)"
      by (simp add: ending_Stopped_iff derived_None_iff)
    show ?thesis
    proof (cases "metrics_reply e")
      case RequestFailed
      then show ?thesis by simp
    next
      case (Response c body)
      show ?thesis
      proof (cases body)
        case None
        with Response show ?thesis by simp
      next
        case (Some v)
        show ?thesis
        proof (cases "\<exists>d. v = PDict d")
          case False
          with Response Some show ?thesis by simp
        next
          case True
          then obtain dd where v: "v = PDict dd" ..
          from u Response Some v
          have "\<exists>w. map_of dd ''error_rate'' = Some w \<and> (w = PNone \<or> (\<exists>d'. w = PDict d'))"
            by (auto split: option.splits pyval.splits)
          with Response Some v show ?thesis by auto
        qed
      qed
    qed
  qed
  from a b c d show ?thesis by blast
qed


text \<open>
  A payload that parses, with \<^verbatim>\<open>error_rate\<close> present and null: the fetch fails with TypeError
  and the run takes the unreachable branch, though the transport worked and the body parsed.
\<close>

theorem missing_fields_default_counterexample:
  "metrics_reply null_rate_env
     = Response 200 (Some (PDict [(''requests_per_min'', PInt 10), (''error_rate'', PNone)]))
   \<and> ending (script_run \<lparr>history = Some one_row\<rparr> null_rate_env) = Stopped
   \<and> main (script_run \<lparr>history = Some one_row\<rparr> null_rate_env)
       = [PageStyle, ErrorBox unreachable_notice]
   \<and> state (script_run \<lparr>history = Some one_row\<rparr> null_rate_env) = \<lparr>history = Some one_row\<rparr>"
proof -
  have r: "metrics_reply null_rate_env
     = Response 200 (Some (PDict [(''requests_per_min'', PInt 10), (''error_rate'', PNone)]))"
    by (simp add: null_rate_env_def)
  have n: "new_entry (clock_hms null_rate_env)
      (PDict [(''requests_per_min'', PInt 10), (''error_rate'', PNone)]) = Inl TypeError"
    by (simp add: new_entry_def)
  from script_run_reply [OF r, of "\<lparr>history = Some one_row\<rparr>"] n r show ?thesis
    by (simp add: init_history_def)
qed

theorem missing_fields_default_witness:
  "(''anomalies'', PList []) \<in> set field_defaults
   \<and> map_of ([] :: (string \<times> pyval) list) ''anomalies'' = None
   \<and> script_run \<lparr>history = None\<rparr>
         (quiet_env\<lparr>metrics_reply := Response 200 (Some (PDict ([] @ [(''anomalies'', PList [])])))\<rparr>)
       = script_run \<lparr>history = None\<rparr> (quiet_env\<lparr>metrics_reply := Response 200 (Some (PDict []))\<rparr>)
   \<and> ending (script_run \<lparr>history = None\<rparr> (quiet_env\<lparr>metrics_reply := Response 200 (Some (PDict []))\<rparr>))
       = Completed
   \<and> (\<exists>r. derived_record (quiet_env\<lparr>metrics_reply := Response 200 (Some (PDict []))\<rparr>) = Some r)
   \<and> ending (script_run \<lparr>history = None\<rparr> quiet_env) = Stopped
   \<and> metrics_reply quiet_env = RequestFailed"
proof -
  note t = missing_fields_default
    [where kvs = "[]" and s = "\<lparr>history = None\<rparr>" and e = quiet_env and code = 200]
  have m: "(''anomalies'', PList []) \<in> set field_defaults"
    by (simp add: field_defaults_def)
  have n: "map_of ([] :: (string \<times> pyval) list) ''anomalies'' = None"
    by simp
  have a: "script_run \<lparr>history = None\<rparr>
         (quiet_env\<lparr>metrics_reply := Response 200 (Some (PDict ([] @ [(''anomalies'', PList [])])))\<rparr>)
       = script_run \<lparr>history = None\<rparr> (quiet_env\<lparr>metrics_reply := Response 200 (Some (PDict []))\<rparr>)"
    using t m n by blast
  have "\<forall>k \<in> fst ` set field_defaults. map_of ([] :: (string \<times> pyval) list) k = None"
    by simp
  then have c: "ending (script_run \<lparr>history = None\<rparr>
      (quiet_env\<lparr>metrics_reply := Response 200 (Some (PDict []))\<rparr>)) = Completed"
    using t by blast
  have "map_of ([] :: (string \<times> pyval) list) ''error_rate'' = None"
    by simp
  then have b: "\<exists>r. derived_record (quiet_env\<lparr>metrics_reply := Response 200 (Some (PDict []))\<rparr>) = Some r"
    using t by blast
  have d: "ending (script_run \<lparr>history = None\<rparr> quiet_env) = Stopped"
    by (simp add: script_run_failed [OF quiet_env_fails])
  have q: "metrics_reply quiet_env = RequestFailed"
    by (simp add: quiet_env_def)
  from m n a c b d q show ?thesis by (intro conjI)
qed



end
